theory Spec2Isabelle
  imports Complex_Main
begin

section \<open>Numbers and vectors\<close>

text \<open>
  The Python floats and numpy arrays of the source are modelled over the reals: every
  scalar is a \<^typ>\<open>real\<close>, and infinities and NaN are not part of the model. Rounding
  is left out everywhere except in the section on double-precision arithmetic, which
  serves the one property that a rounding error decides.
  A position or an acceleration is an array of three scalars; the orchestrator's state is
  an array of six scalars, of which \<open>state[:3]\<close> is the position and \<open>state[3:6]\<close> the
  velocity.
\<close>

type_synonym vec3 = "real \<times> real \<times> real"

type_synonym state = "vec3 \<times> vec3"

text \<open>\<open>state[:3]\<close>\<close>

definition state_pos :: "state \<Rightarrow> vec3" where
  "state_pos st = fst st"

text \<open>\<open>np.zeros(3)\<close>\<close>

definition zeros3 :: vec3 where
  "zeros3 = (0, 0, 0)"

text \<open>\<open>a - b\<close> on arrays\<close>

fun vsub :: "vec3 \<Rightarrow> vec3 \<Rightarrow> vec3" where
  "vsub (a1, a2, a3) (b1, b2, b3) = (a1 - b1, a2 - b2, a3 - b3)"

text \<open>\<open>c * v\<close> and \<open>v * c\<close> for a scalar \<open>c\<close>\<close>

fun vscale :: "real \<Rightarrow> vec3 \<Rightarrow> vec3" where
  "vscale c (a1, a2, a3) = (c * a1, c * a2, c * a3)"

text \<open>\<open>v / c\<close> for a scalar \<open>c\<close>\<close>

fun vdiv :: "vec3 \<Rightarrow> real \<Rightarrow> vec3" where
  "vdiv (a1, a2, a3) c = (a1 / c, a2 / c, a3 / c)"

text \<open>\<open>np.linalg.norm(v)\<close>\<close>

fun vnorm :: "vec3 \<Rightarrow> real" where
  "vnorm (a1, a2, a3) = sqrt (a1 * a1 + a2 * a2 + a3 * a3)"

section \<open>Configuration constants (config.py)\<close>

definition LQR_COARSE_THRESHOLD :: real where
  "LQR_COARSE_THRESHOLD = 500"

definition MPC_FINE_THRESHOLD :: real where
  "MPC_FINE_THRESHOLD = 5"

definition SLIDING_CAPTURE_THRESHOLD :: real where
  "SLIDING_CAPTURE_THRESHOLD = 0.01"

definition CAPTURE_TOLERANCE_MM :: real where
  "CAPTURE_TOLERANCE_MM = 1.0"

definition BATTERY_CAPACITY_KWH :: real where
  "BATTERY_CAPACITY_KWH = 50"

definition BATTERY_EFFICIENCY :: real where
  "BATTERY_EFFICIENCY = 0.95"

definition MAX_DISCHARGE_RATE_KW :: real where
  "MAX_DISCHARGE_RATE_KW = 10"

definition MAIN_RCS_THRUST_N :: real where
  "MAIN_RCS_THRUST_N = 450"

definition VERNIER_RCS_THRUST_N :: real where
  "VERNIER_RCS_THRUST_N = 50"

definition RCS_ISP :: real where
  "RCS_ISP = 300"

definition NET_DEPLOYMENT_TIME_S :: real where
  "NET_DEPLOYMENT_TIME_S = 3.0"

definition NET_RETRACTION_TIME_S :: real where
  "NET_RETRACTION_TIME_S = 5.0"

definition MAX_DEBRIS_MASS_KG :: real where
  "MAX_DEBRIS_MASS_KG = 500"

section \<open>Errors\<close>

text \<open>
  The exceptions the modelled code can raise: a division of a float by zero in
  \<open>request_power\<close>, and an attribute access on \<open>None\<close> in the retracting branch of
  \<open>compute_control\<close>.
\<close>

datatype error = ZeroDivisionError | AttributeError

section \<open>PowerSystem (subsystems/power_system.py)\<close>

record PowerSystem =
  capacity_kwh :: real
  soc :: real
  efficiency :: real
  max_discharge_kw :: real

definition PowerSystem_init :: PowerSystem where
  "PowerSystem_init =
     \<lparr>capacity_kwh = BATTERY_CAPACITY_KWH, soc = 1.0,
      efficiency = BATTERY_EFFICIENCY, max_discharge_kw = MAX_DISCHARGE_RATE_KW\<rparr>"

text \<open>
  \<open>request_power\<close> returns the delivered power and the updated system. The division by
  \<open>dt\<close> in the clamping branch raises when \<open>dt\<close> is zero. In that branch the real
  difference \<open>soc - soc * capacity / capacity\<close> is 0; the double-precision difference of
  the source can be a rounding residue instead, so nothing below relies on the exact
  value of the state of charge after a clamped request.
\<close>

definition request_power :: "PowerSystem \<Rightarrow> real \<Rightarrow> real \<Rightarrow> error + (real \<times> PowerSystem)" where
  "request_power p kw dt =
     (let available = min kw (max_discharge_kw p);
          energy_kwh = available * dt / 3600
      in if energy_kwh > soc p * capacity_kwh p then
           (if dt = 0 then Inl ZeroDivisionError
            else
              let available' = soc p * capacity_kwh p * 3600 / dt;
                  energy_kwh' = soc p * capacity_kwh p;
                  soc1 = soc p - energy_kwh' / capacity_kwh p
              in Inr (available' * efficiency p, p\<lparr>soc := max 0 soc1\<rparr>))
         else
           (let soc1 = soc p - energy_kwh / capacity_kwh p
            in Inr (available * efficiency p, p\<lparr>soc := max 0 soc1\<rparr>)))"

definition can_support :: "PowerSystem \<Rightarrow> real \<Rightarrow> bool" where
  "can_support p kw \<longleftrightarrow> soc p > 0.01 \<and> kw \<le> max_discharge_kw p"

section \<open>GrabbingSystem (subsystems/grabbing_system.py)\<close>

record GrabbingSystem =
  net_deployed :: bool
  net_deploying :: bool
  capture_confirmed :: bool
  retracting :: bool
  deploy_timer :: real
  retract_timer :: real
  captured_mass_kg :: real
  deployment_thruster_active :: bool

definition GrabbingSystem_init :: GrabbingSystem where
  "GrabbingSystem_init =
     \<lparr>net_deployed = False, net_deploying = False, capture_confirmed = False,
      retracting = False, deploy_timer = 0.0, retract_timer = 0.0,
      captured_mass_kg = 0.0, deployment_thruster_active = False\<rparr>"

definition deploy_net :: "GrabbingSystem \<Rightarrow> real \<Rightarrow> bool \<times> GrabbingSystem" where
  "deploy_net g dt =
     (if net_deployed g then (True, g)
      else
        let g1 = (if \<not> net_deploying g
                  then g\<lparr>net_deploying := True, deployment_thruster_active := True\<rparr>
                  else g);
            g2 = g1\<lparr>deploy_timer := deploy_timer g1 + dt\<rparr>;
            g3 = (if deploy_timer g2 \<ge> NET_DEPLOYMENT_TIME_S
                  then g2\<lparr>net_deployed := True, net_deploying := False,
                          deployment_thruster_active := False\<rparr>
                  else g2)
        in (net_deployed g3, g3))"

definition confirm_capture :: "GrabbingSystem \<Rightarrow> real \<Rightarrow> bool \<times> GrabbingSystem" where
  "confirm_capture g mass =
     (if mass \<le> MAX_DEBRIS_MASS_KG \<and> net_deployed g
      then (True, g\<lparr>capture_confirmed := True, captured_mass_kg := mass\<rparr>)
      else (False, g))"

definition retract_net :: "GrabbingSystem \<Rightarrow> real \<Rightarrow> bool \<times> GrabbingSystem" where
  "retract_net g dt =
     (if \<not> capture_confirmed g then (False, g)
      else
        let g1 = (if \<not> retracting g then g\<lparr>retracting := True\<rparr> else g);
            g2 = g1\<lparr>retract_timer := retract_timer g1 + dt\<rparr>
        in (retract_timer g2 \<ge> NET_RETRACTION_TIME_S, g2))"

section \<open>PropulsionSystem (subsystems/propulsion.py)\<close>

record PropulsionSystem =
  main_thrust :: real
  vernier_thrust :: real
  isp :: real
  mass_kg :: real
  fuel_kg :: real

definition PropulsionSystem_init :: "real \<Rightarrow> PropulsionSystem" where
  "PropulsionSystem_init dry_mass_kg =
     \<lparr>main_thrust = MAIN_RCS_THRUST_N, vernier_thrust = VERNIER_RCS_THRUST_N,
      isp = RCS_ISP, mass_kg = dry_mass_kg, fuel_kg = 500\<rparr>"

text \<open>
  \<open>thrust_from_acceleration\<close> returns the force vector, the fuel used and the updated
  system. Both tests read \<open>mag\<close>, the magnitude of the force before any scaling. Over
  the reals a capped force has magnitude exactly \<open>f_max\<close>; the rounding of the scaling
  in the source is the subject of the double-precision version further down.
\<close>

definition thrust_from_acceleration ::
  "PropulsionSystem \<Rightarrow> vec3 \<Rightarrow> (vec3 \<times> real) \<times> PropulsionSystem" where
  "thrust_from_acceleration p accel_mps2 =
     (let f = vscale (mass_kg p) accel_mps2;
          mag = vnorm f;
          f_max = sqrt 3 * main_thrust p;
          f1 = (if mag > f_max then vscale (f_max / mag) f else f);
          f2 = (if mag < vernier_thrust p
                then vscale (vernier_thrust p / (mag + 1 / 10 ^ 8)) f1 else f1);
          dt_flow = 0.1;
          mdot = vnorm f2 / (isp p * 9.81);
          fuel_used = mdot * dt_flow
      in ((f2, fuel_used), p\<lparr>fuel_kg := fuel_kg p - min fuel_used (fuel_kg p)\<rparr>))"

definition has_fuel :: "PropulsionSystem \<Rightarrow> bool" where
  "has_fuel p \<longleftrightarrow> fuel_kg p > 1.0"

section \<open>Double-precision arithmetic\<close>

text \<open>
  The source computes in IEEE double precision. Where a property holds or fails by a
  rounding error, the real-valued functions above cannot tell; the definitions of this
  section give the arithmetic of the source with its rounding: every operation returns
  the double nearest to the exact result, ties going to the even mantissa. Exponents are
  not bounded, so the model is the arithmetic of the source on values in the normal
  range, without overflow, subnormal numbers, infinities or NaN.
\<close>

text \<open>The integer nearest to a real, ties to even.\<close>

definition round_even :: "real \<Rightarrow> int" where
  "round_even y =
     (let n = \<lfloor>y\<rfloor>; r = y - of_int n
      in if r < 1 / 2 then n else if r > 1 / 2 then n + 1
         else if even n then n else n + 1)"

text \<open>
  The double nearest to a real: a mantissa of 53 bits at the exponent of the binade of
  the argument.
\<close>

definition to_double :: "real \<Rightarrow> real" where
  "to_double x =
     (if x = 0 then 0
      else
        let e = \<lfloor>log 2 \<bar>x\<bar>\<rfloor>
        in sgn x * of_int (round_even (\<bar>x\<bar> * 2 powr (52 - of_int e))) * 2 powr (of_int e - 52))"

definition fp_add :: "real \<Rightarrow> real \<Rightarrow> real" where
  "fp_add a b = to_double (a + b)"

definition fp_sub :: "real \<Rightarrow> real \<Rightarrow> real" where
  "fp_sub a b = to_double (a - b)"

definition fp_mul :: "real \<Rightarrow> real \<Rightarrow> real" where
  "fp_mul a b = to_double (a * b)"

definition fp_div :: "real \<Rightarrow> real \<Rightarrow> real" where
  "fp_div a b = to_double (a / b)"

definition fp_sqrt :: "real \<Rightarrow> real" where
  "fp_sqrt a = to_double (sqrt a)"

text \<open>The product of a scalar and an array, component by component.\<close>

fun fp_vscale :: "real \<Rightarrow> vec3 \<Rightarrow> vec3" where
  "fp_vscale c (a1, a2, a3) = (fp_mul c a1, fp_mul c a2, fp_mul c a3)"

text \<open>
  \<open>np.linalg.norm(v)\<close> is the square root of the dot product of \<open>v\<close> with itself, here
  accumulated from left to right.
\<close>

fun fp_vnorm :: "vec3 \<Rightarrow> real" where
  "fp_vnorm (a1, a2, a3) =
     fp_sqrt (fp_add (fp_add (fp_mul a1 a1) (fp_mul a2 a2)) (fp_mul a3 a3))"

text \<open>
  \<open>thrust_from_acceleration\<close> in double precision: the same steps as above, each
  operation rounded; the literals \<open>1e-8\<close>, \<open>0.1\<close> and \<open>9.81\<close> are the nearest doubles.
\<close>

definition thrust_from_acceleration_fp ::
  "PropulsionSystem \<Rightarrow> vec3 \<Rightarrow> (vec3 \<times> real) \<times> PropulsionSystem" where
  "thrust_from_acceleration_fp p accel_mps2 =
     (let f = fp_vscale (mass_kg p) accel_mps2;
          mag = fp_vnorm f;
          f_max = fp_mul (fp_sqrt 3) (main_thrust p);
          f1 = (if mag > f_max then fp_vscale (fp_div f_max mag) f else f);
          f2 = (if mag < vernier_thrust p
                then fp_vscale (fp_div (vernier_thrust p) (fp_add mag (to_double (1 / 10 ^ 8)))) f1
                else f1);
          dt_flow = to_double 0.1;
          mdot = fp_div (fp_vnorm f2) (fp_mul (isp p) (to_double 9.81));
          fuel_used = fp_mul mdot dt_flow
      in ((f2, fuel_used), p\<lparr>fuel_kg := fp_sub (fuel_kg p) (min fuel_used (fuel_kg p))\<rparr>))"

section \<open>The orchestrator (ai_brain.py)\<close>

datatype MissionPhase =
    PAYLOAD_DEPLOYED
  | SEEKING_DEBRIS
  | COARSE_APPROACH
  | FINE_APPROACH
  | CAPTURE
  | RETRACTING
  | REENTRY
  | COMPLETE

text \<open>
  A debris record is a dictionary with the keys \<open>pos\<close>, \<open>vel\<close> and \<open>mass_kg\<close>. The
  orchestrator reads the mass with \<open>get("mass_kg", 100)\<close>, so the key may be absent.
\<close>

record debris =
  pos :: vec3
  vel :: vec3
  debris_mass_kg :: "real option"

text \<open>
  The four controllers live in the package \<open>controls\<close>, which is not among the sources.
  They are parameters of the model: each \<open>compute_control\<close> maps the controller's private
  memory (of an arbitrary type \<open>'c\<close>) and its arguments to the desired acceleration and
  the new memory.
\<close>

record 'c controllers =
  lqr_compute_control :: "'c \<Rightarrow> state \<Rightarrow> vec3 \<Rightarrow> vec3 \<times> 'c"
  mpc_compute_control :: "'c \<Rightarrow> state \<Rightarrow> vec3 \<Rightarrow> vec3 \<times> 'c"
  smc_compute_control :: "'c \<Rightarrow> state \<Rightarrow> vec3 \<Rightarrow> vec3 \<times> 'c"
  adaptive_compute_control :: "'c \<Rightarrow> state \<Rightarrow> vec3 \<Rightarrow> vec3 \<Rightarrow> vec3 \<times> 'c"

record 'c AIBrain =
  phase :: MissionPhase
  lqr :: 'c
  mpc :: 'c
  smc :: 'c
  adaptive :: 'c
  power_sys :: PowerSystem
  grabbing :: GrabbingSystem
  propulsion :: PropulsionSystem
  state :: state
  target_debris :: "debris option"
  debris_catalog :: "debris list"

text \<open>The constructor, given the initial memories of the four controllers.\<close>

definition AIBrain_init :: "'c \<Rightarrow> 'c \<Rightarrow> 'c \<Rightarrow> 'c \<Rightarrow> 'c AIBrain" where
  "AIBrain_init l m s a =
     \<lparr>phase = PAYLOAD_DEPLOYED, lqr = l, mpc = m, smc = s, adaptive = a,
      power_sys = PowerSystem_init, grabbing = GrabbingSystem_init,
      propulsion = PropulsionSystem_init 4000, state = (zeros3, zeros3),
      target_debris = None, debris_catalog = []\<rparr>"

text \<open>
  The telemetry dictionary: \<open>phase\<close>, \<open>control_mode\<close> (\<open>None\<close> or a string) and the key
  \<open>error\<close>, which is present on the low-power path only.
\<close>

record telemetry =
  t_phase :: MissionPhase
  t_control_mode :: "string option"
  t_error :: "string option"

text \<open>The running bound \<open>best_dist\<close> of the search starts at \<open>np.inf\<close>.\<close>

datatype bound = Infinite | Finite real

fun below :: "real \<Rightarrow> bound \<Rightarrow> bool" where
  "below x Infinite = True"
| "below x (Finite y) = (x < y)"

text \<open>The loop of \<open>identify_nearest_debris\<close>, with its variables \<open>best\<close> and \<open>best_dist\<close>.\<close>

fun nearest_loop :: "vec3 \<Rightarrow> debris list \<Rightarrow> debris option \<Rightarrow> bound \<Rightarrow> debris option" where
  "nearest_loop p [] best best_dist = best"
| "nearest_loop p (d # ds) best best_dist =
     (let dist = vnorm (vsub (pos d) p)
      in if below dist best_dist then nearest_loop p ds (Some d) (Finite dist)
         else nearest_loop p ds best best_dist)"

definition identify_nearest_debris :: "state \<Rightarrow> debris list \<Rightarrow> debris option" where
  "identify_nearest_debris st catalog =
     (if catalog = [] then None
      else nearest_loop (state_pos st) catalog None Infinite)"

text \<open>
  \<open>decide_phase\<close> reads the phase and the grabbing system of the brain. A target of three
  scalars has \<open>size >= 3\<close>, so the distance is always the norm.
\<close>

definition decide_phase :: "'c AIBrain \<Rightarrow> state \<Rightarrow> vec3 option \<Rightarrow> MissionPhase" where
  "decide_phase b st target =
     (case target of
        None \<Rightarrow> SEEKING_DEBRIS
      | Some tg \<Rightarrow>
          let dist = vnorm (vsub (state_pos st) tg)
          in if phase b = COARSE_APPROACH \<and> dist < LQR_COARSE_THRESHOLD then FINE_APPROACH
             else if phase b = FINE_APPROACH \<and> dist < MPC_FINE_THRESHOLD then CAPTURE
             else if phase b = CAPTURE \<and> dist < SLIDING_CAPTURE_THRESHOLD then RETRACTING
             else if retract_timer (grabbing b) \<ge> 5.0 \<and> capture_confirmed (grabbing b)
               then REENTRY
             else if phase b = REENTRY then COMPLETE
             else phase b)"

text \<open>
  The target selection of \<open>compute_control\<close>: when no target is set and the catalog is
  not empty, take the nearest record and, if there is one, enter the coarse approach.
\<close>

definition select_target :: "'c AIBrain \<Rightarrow> state \<Rightarrow> 'c AIBrain" where
  "select_target b st =
     (if target_debris b = None \<and> debris_catalog b \<noteq> [] then
        let b1 = b\<lparr>target_debris := identify_nearest_debris st (debris_catalog b)\<rparr>
        in if target_debris b1 \<noteq> None then b1\<lparr>phase := COARSE_APPROACH\<rparr> else b1
      else b)"

text \<open>
  The dispatch of \<open>compute_control\<close> on the updated phase: the commanded acceleration,
  the control mode and the brain after the controller and grabbing calls.
\<close>

definition dispatch ::
  "'c controllers \<Rightarrow> 'c AIBrain \<Rightarrow> state \<Rightarrow> real \<Rightarrow> vec3 option
     \<Rightarrow> error + (vec3 \<times> string option \<times> 'c AIBrain)" where
  "dispatch cs b st dt target =
     (if phase b = COARSE_APPROACH \<and> target \<noteq> None then
        let (u, l) = lqr_compute_control cs (lqr b) st (the target)
        in Inr (u, Some ''LQR'', b\<lparr>lqr := l\<rparr>)
      else if phase b = FINE_APPROACH \<and> target \<noteq> None then
        let (u, m) = mpc_compute_control cs (mpc b) st (the target)
        in Inr (u, Some ''MPC'', b\<lparr>mpc := m\<rparr>)
      else if phase b = CAPTURE \<and> target \<noteq> None then
        let (u_smc, s) = smc_compute_control cs (smc b) st (the target);
            (u, a) = adaptive_compute_control cs (adaptive b) st (the target) u_smc;
            b1 = b\<lparr>smc := s, adaptive := a\<rparr>;
            b2 = (if vnorm (vsub (state_pos st) (the target)) < CAPTURE_TOLERANCE_MM / 1000
                  then b1\<lparr>grabbing := snd (deploy_net (grabbing b1) dt)\<rparr> else b1)
        in Inr (u, Some ''SMC+Adaptive'', b2)
      else if phase b = RETRACTING then
        (case target_debris b of
           None \<Rightarrow> Inl AttributeError
         | Some d \<Rightarrow>
             let mass = (case debris_mass_kg d of Some m \<Rightarrow> m | None \<Rightarrow> 100);
                 g1 = snd (confirm_capture (grabbing b) mass);
                 g2 = snd (retract_net g1 dt)
             in Inr (zeros3, Some ''retract'', b\<lparr>grabbing := g2\<rparr>))
      else if phase b = REENTRY then
        Inr (vdiv (vscale (- 0.5) (state_pos st)) (vnorm (state_pos st) + 1 / 10 ^ 6),
             Some ''reentry'', b)
      else Inr (zeros3, None, b))"

text \<open>
  \<open>np.array(self.target_debris["pos"]) if self.target_debris else None\<close>
\<close>

definition target_of :: "'c AIBrain \<Rightarrow> vec3 option" where
  "target_of b = (case target_debris b of Some d \<Rightarrow> Some (pos d) | None \<Rightarrow> None)"

text \<open>
  \<open>compute_control\<close> returns the acceleration, the telemetry and the brain after the
  tick, or the exception that ended it.
\<close>

definition compute_control ::
  "'c controllers \<Rightarrow> 'c AIBrain \<Rightarrow> state \<Rightarrow> real
     \<Rightarrow> error + (vec3 \<times> telemetry \<times> 'c AIBrain)" where
  "compute_control cs b st dt =
     (let b0 = b\<lparr>state := st\<rparr>;
          tel = \<lparr>t_phase = phase b0, t_control_mode = None, t_error = None\<rparr>
      in if \<not> can_support (power_sys b0) 5.0 then
           Inr (zeros3, tel\<lparr>t_error := Some ''low_power''\<rparr>, b0)
         else
           let b1 = select_target b0 st;
               target = target_of b1;
               b2 = b1\<lparr>phase := decide_phase b1 st target\<rparr>
           in case dispatch cs b2 st dt target of
                Inl e \<Rightarrow> Inl e
              | Inr (u, mode, b3) \<Rightarrow>
                  (case request_power (power_sys b3) (vnorm u * 0.5) dt of
                     Inl e \<Rightarrow> Inl e
                   | Inr (delivered, pw) \<Rightarrow>
                       let pr = snd (thrust_from_acceleration (propulsion b3) u)
                       in Inr (u, tel\<lparr>t_control_mode := mode\<rparr>,
                               b3\<lparr>power_sys := pw, propulsion := pr\<rparr>)))"

section \<open>The control mode of each phase\<close>

text \<open>
  The control mode that the dispatch of the orchestrator reports for each phase, as the
  specification lists them: \<open>LQR\<close>, \<open>MPC\<close>, \<open>SMC+Adaptive\<close>, \<open>retract\<close>, \<open>reentry\<close>, and
  none for any other phase.
\<close>

fun mode_of_phase :: "MissionPhase \<Rightarrow> string option" where
  "mode_of_phase COARSE_APPROACH = Some ''LQR''"
| "mode_of_phase FINE_APPROACH = Some ''MPC''"
| "mode_of_phase CAPTURE = Some ''SMC+Adaptive''"
| "mode_of_phase RETRACTING = Some ''retract''"
| "mode_of_phase REENTRY = Some ''reentry''"
| "mode_of_phase _ = None"

section \<open>Concrete missions\<close>

text \<open>Controllers without memory that always ask for no acceleration.\<close>

definition null_controllers :: "unit controllers" where
  "null_controllers =
     \<lparr>lqr_compute_control = (\<lambda>c st tg. (zeros3, ())),
      mpc_compute_control = (\<lambda>c st tg. (zeros3, ())),
      smc_compute_control = (\<lambda>c st tg. (zeros3, ())),
      adaptive_compute_control = (\<lambda>c st tg u. (zeros3, ()))\<rparr>"

text \<open>The catalog of main.py.\<close>

definition debris_1 :: debris where
  "debris_1 = \<lparr>pos = (800, 200, 100), vel = (0.1, - 0.05, 0), debris_mass_kg = Some 150\<rparr>"

definition debris_2 :: debris where
  "debris_2 = \<lparr>pos = (300, 50, 20), vel = (- 0.02, 0.01, 0), debris_mass_kg = Some 80\<rparr>"

definition debris_3 :: debris where
  "debris_3 = \<lparr>pos = (5000, 500, 300), vel = (0, 0, 0), debris_mass_kg = Some 200\<rparr>"

definition main_catalog :: "debris list" where
  "main_catalog = [debris_1, debris_2, debris_3]"

definition origin_state :: state where
  "origin_state = (zeros3, zeros3)"

text \<open>A stage one metre from the origin of the frame, at rest.\<close>

definition unit_state :: state where
  "unit_state = ((1, 0, 0), zeros3)"

definition brain_start :: "unit AIBrain" where
  "brain_start = AIBrain_init () () () ()"

text \<open>A grabbing system after a confirmed capture and five seconds of retraction.\<close>

definition grabbing_retracted :: GrabbingSystem where
  "grabbing_retracted =
     \<lparr>net_deployed = True, net_deploying = False, capture_confirmed = True,
      retracting = True, deploy_timer = 3, retract_timer = 5,
      captured_mass_kg = 80, deployment_thruster_active = False\<rparr>"

text \<open>The brain with the second record as its target, in a given phase.\<close>

definition brain_in :: "MissionPhase \<Rightarrow> unit AIBrain" where
  "brain_in ph = brain_start\<lparr>phase := ph, target_debris := Some debris_2,
     debris_catalog := main_catalog\<rparr>"

text \<open>The coarse approach with a battery at one percent.\<close>

definition brain_low :: "unit AIBrain" where
  "brain_low = (brain_in COARSE_APPROACH)\<lparr>power_sys := PowerSystem_init\<lparr>soc := 0.01\<rparr>\<rparr>"

text \<open>The brain after a confirmed capture and five seconds of retraction, in a given phase.\<close>

definition brain_retracted :: "MissionPhase \<Rightarrow> unit AIBrain" where
  "brain_retracted ph = (brain_in ph)\<lparr>grabbing := grabbing_retracted\<rparr>"

text \<open>The brain before its first tick, with the catalog of main.py.\<close>

definition brain_seeking :: "unit AIBrain" where
  "brain_seeking = brain_start\<lparr>debris_catalog := main_catalog\<rparr>"


section \<open>Properties of the subsystems\<close>

lemma vnorm_nonneg: "0 \<le> vnorm v"
  by (cases v) simp

lemma vnorm_vscale: "vnorm (vscale c v) = \<bar>c\<bar> * vnorm v"
proof (cases v)
  case (fields a1 a2 a3)
  have "c * a1 * (c * a1) + c * a2 * (c * a2) + c * a3 * (c * a3)
        = c\<^sup>2 * (a1 * a1 + a2 * a2 + a3 * a3)"
    by (simp add: power2_eq_square algebra_simps)
  then show ?thesis
    using fields by (simp add: real_sqrt_mult)
qed

lemma vnorm_axis: "vnorm (c, 0, 0) = \<bar>c\<bar>"
  by simp

lemma vnorm_zeros3: "vnorm zeros3 = 0"
  by (simp add: zeros3_def)

lemma vscale_zeros3: "vscale c zeros3 = zeros3"
  by (simp add: zeros3_def)

text \<open>
  C7: \<open>confirm_capture(m)\<close> returns true exactly when the net is deployed and
  \<open>m \<le> 500\<close>; whenever it returns false, the whole GrabbingSystem state (flags, timers,
  captured mass) is the one it was called on.
\<close>

theorem confirm_capture_iff:
  "(fst (confirm_capture g m) \<longleftrightarrow> net_deployed g \<and> m \<le> 500) \<and>
   (\<not> fst (confirm_capture g m) \<longrightarrow> snd (confirm_capture g m) = g)"
  by (auto simp: confirm_capture_def MAX_DEBRIS_MASS_KG_def)

theorem confirm_capture_iff_witness:
  "\<not> fst (confirm_capture (GrabbingSystem_init\<lparr>net_deployed := True\<rparr>) 501) \<and>
   snd (confirm_capture (GrabbingSystem_init\<lparr>net_deployed := True\<rparr>) 501)
     = GrabbingSystem_init\<lparr>net_deployed := True\<rparr>"
  using confirm_capture_iff [of "GrabbingSystem_init\<lparr>net_deployed := True\<rparr>" 501]
  by simp

text \<open>
  C5, as amended: for \<open>kw \<ge> 0\<close> and \<open>dt > 0\<close>, on a power system as the constructor
  builds it (capacity 50 kWh, discharge limit 10 kW) whose state of charge is within
  \<open>[0, 1]\<close>, \<open>request_power\<close> returns, and the state of charge does not increase and
  stays within \<open>[0, 1]\<close>. The power is capped at the discharge limit before the energy
  is compared with the stored energy \<open>soc * capacity\<close>: whenever the energy at the capped
  power does not exceed the stored energy, the state of charge decreases by that energy
  over the capacity, even if the energy at the requested power exceeds what is stored.
  What the clamping branch leaves in the state of charge is not stated here.
\<close>

theorem request_power_soc_bounds:
  assumes "0 \<le> kw" and "0 < dt" and "0 \<le> soc p" and "soc p \<le> 1"
    and "capacity_kwh p = BATTERY_CAPACITY_KWH"
    and "max_discharge_kw p = MAX_DISCHARGE_RATE_KW"
  shows "\<exists>w p'. request_power p kw dt = Inr (w, p') \<and>
           soc p' \<le> soc p \<and> 0 \<le> soc p' \<and> soc p' \<le> 1 \<and>
           (min kw (max_discharge_kw p) * dt / 3600 \<le> soc p * capacity_kwh p \<longrightarrow>
              soc p' = soc p - min kw (max_discharge_kw p) * dt / 3600 / capacity_kwh p)"
proof -
  let ?e = "min kw (max_discharge_kw p) * dt / 3600"
  have e0: "0 \<le> ?e"
    using assms by (simp add: MAX_DISCHARGE_RATE_KW_def)
  show ?thesis
  proof (cases "?e > soc p * capacity_kwh p")
    case True
    then show ?thesis
      using assms by (simp add: request_power_def Let_def BATTERY_CAPACITY_KWH_def)
  next
    case False
    have low: "0 \<le> ?e / capacity_kwh p"
      using e0 assms by (simp add: BATTERY_CAPACITY_KWH_def)
    have "?e / capacity_kwh p \<le> soc p"
      using False assms by (simp add: BATTERY_CAPACITY_KWH_def)
    then have "max 0 (soc p - ?e / capacity_kwh p) = soc p - ?e / capacity_kwh p"
      by simp
    then show ?thesis
      using False low assms by (simp add: request_power_def Let_def)
  qed
qed

theorem request_power_soc_bounds_witness:
  "(0::real) \<le> 20 \<and> (0::real) < 10800 \<and> 0 \<le> soc PowerSystem_init \<and>
   soc PowerSystem_init \<le> 1 \<and>
   capacity_kwh PowerSystem_init = BATTERY_CAPACITY_KWH \<and>
   max_discharge_kw PowerSystem_init = MAX_DISCHARGE_RATE_KW \<and>
   min 20 (max_discharge_kw PowerSystem_init) * 10800 / 3600
     \<le> soc PowerSystem_init * capacity_kwh PowerSystem_init \<and>
   (\<exists>w p'. request_power PowerSystem_init 20 10800 = Inr (w, p') \<and> soc p' = 2 / 5)"
  using request_power_soc_bounds [of 20 10800 PowerSystem_init]
  by (auto simp: PowerSystem_init_def BATTERY_CAPACITY_KWH_def MAX_DISCHARGE_RATE_KW_def)

text \<open>
  The claim as stated fails for a request of 20 kW over three hours on a full battery:
  the requested energy, 60 kWh, exceeds the 50 kWh stored, and the state of charge
  afterwards is not 0.
\<close>

theorem request_power_soc_counterexample:
  "(0::real) \<le> 20 \<and> (0::real) < 10800 \<and>
   soc PowerSystem_init * capacity_kwh PowerSystem_init < 20 * 10800 / 3600 \<and>
   soc (snd (projr (request_power PowerSystem_init 20 10800))) \<noteq> 0"
  by (simp add: request_power_def Let_def PowerSystem_init_def BATTERY_CAPACITY_KWH_def
      MAX_DISCHARGE_RATE_KW_def)

text \<open>
  C6: on a propulsion system with the constructor's specific impulse and a fuel mass
  that is not negative, \<open>thrust_from_acceleration\<close> does not increase \<open>fuel_kg\<close> and
  leaves it at or above 0: the decrement is the minimum of the fuel used in this call and
  the fuel left.
\<close>

theorem thrust_fuel:
  assumes "0 \<le> fuel_kg p" and "isp p = RCS_ISP"
  shows "fuel_kg (snd (thrust_from_acceleration p a)) \<le> fuel_kg p \<and>
         0 \<le> fuel_kg (snd (thrust_from_acceleration p a)) \<and>
         fuel_kg (snd (thrust_from_acceleration p a))
           = fuel_kg p - min (snd (fst (thrust_from_acceleration p a))) (fuel_kg p)"
proof -
  define used where "used = snd (fst (thrust_from_acceleration p a))"
  have "0 \<le> used"
    using assms vnorm_nonneg
    by (simp add: used_def thrust_from_acceleration_def Let_def RCS_ISP_def)
  moreover have "fuel_kg (snd (thrust_from_acceleration p a)) = fuel_kg p - min used (fuel_kg p)"
    by (simp add: used_def thrust_from_acceleration_def Let_def)
  ultimately show ?thesis
    using assms unfolding used_def by simp
qed

theorem thrust_fuel_witness:
  "0 \<le> fuel_kg (PropulsionSystem_init 4000) \<and> isp (PropulsionSystem_init 4000) = RCS_ISP \<and>
   fuel_kg (snd (thrust_from_acceleration (PropulsionSystem_init 4000) (1, 0, 0))) \<le> 500 \<and>
   0 \<le> fuel_kg (snd (thrust_from_acceleration (PropulsionSystem_init 4000) (1, 0, 0)))"
proof -
  have h1: "0 \<le> fuel_kg (PropulsionSystem_init 4000)"
    by (simp add: PropulsionSystem_init_def)
  have h2: "isp (PropulsionSystem_init 4000) = RCS_ISP"
    by (simp add: PropulsionSystem_init_def)
  have h3: "fuel_kg (PropulsionSystem_init 4000) = 500"
    by (simp add: PropulsionSystem_init_def)
  show ?thesis
    using thrust_fuel [OF h1 h2, of "(1, 0, 0)"] h1 h2 unfolding h3 by blast
qed

text \<open>
  C3, as amended: for the zero acceleration, \<open>thrust_from_acceleration\<close> returns the zero
  force vector, of magnitude 0 and not 50: the vernier scaling multiplies the force by
  \<open>vernier_thrust / (mag + 1e-8)\<close>, which leaves a zero force at zero.
\<close>

theorem thrust_zero: "fst (fst (thrust_from_acceleration p zeros3)) = zeros3 \<and>
   vnorm (fst (fst (thrust_from_acceleration p zeros3))) = 0"
  by (simp add: thrust_from_acceleration_def Let_def zeros3_def)

text \<open>The claim as stated fails on the stage built by the orchestrator (dry mass 4000 kg).\<close>

theorem thrust_zero_counterexample:
  "vnorm (fst (fst (thrust_from_acceleration (PropulsionSystem_init 4000) zeros3))) \<noteq> 50"
  by (simp add: thrust_from_acceleration_def Let_def zeros3_def)

text \<open>
  In exact arithmetic, with the thrust constants of the constructor, the clamp keeps the
  magnitude of the force at or below \<open>sqrt 3 * 450\<close>: a force above the cap is scaled
  to the cap, a force below 50 N stays below 50 N.
\<close>

lemma thrust_bound_exact:
  assumes "main_thrust p = MAIN_RCS_THRUST_N" and "vernier_thrust p = VERNIER_RCS_THRUST_N"
  shows "vnorm (fst (fst (thrust_from_acceleration p a))) \<le> sqrt 3 * 450"
proof -
  define f where "f = vscale (mass_kg p) a"
  define mag where "mag = vnorm f"
  define f_max where "f_max = sqrt 3 * (450::real)"
  have mag0: "0 \<le> mag" by (simp add: mag_def vnorm_nonneg)
  have "(1::real) \<le> sqrt 3" by simp
  then have fmax: "50 < f_max" unfolding f_max_def by linarith
  have res: "fst (fst (thrust_from_acceleration p a))
      = (if mag < 50 then vscale (50 / (mag + 1 / 10 ^ 8)) (if mag > f_max then vscale (f_max / mag) f else f)
         else (if mag > f_max then vscale (f_max / mag) f else f))"
    using assms
    by (simp add: thrust_from_acceleration_def Let_def f_def mag_def f_max_def
        MAIN_RCS_THRUST_N_def VERNIER_RCS_THRUST_N_def)
  consider "mag > f_max" | "mag < 50" | "50 \<le> mag" "mag \<le> f_max" by linarith
  then have "vnorm (fst (fst (thrust_from_acceleration p a))) \<le> f_max"
  proof cases
    case 1
    then have "vnorm (fst (fst (thrust_from_acceleration p a))) = \<bar>f_max / mag\<bar> * mag"
      using fmax res by (simp add: vnorm_vscale mag_def)
    also have "\<dots> = f_max" using 1 fmax by simp
    finally show ?thesis by simp
  next
    case 2
    then have "vnorm (fst (fst (thrust_from_acceleration p a))) = \<bar>50 / (mag + 1 / 10 ^ 8)\<bar> * mag"
      using fmax res by (simp add: vnorm_vscale mag_def)
    also have "\<dots> = 50 * (mag / (mag + 1 / 10 ^ 8))" using mag0 by simp
    also have "\<dots> \<le> 50 * 1"
      using mag0 by (intro mult_left_mono) (simp_all add: divide_le_eq)
    finally show ?thesis using fmax by simp
  next
    case 3
    then show ?thesis using res by (simp add: mag_def)
  qed
  then show ?thesis by (simp add: f_max_def)
qed

text \<open>Evaluating the double-precision arithmetic on the values of one call.\<close>

lemma to_double_zero: "to_double 0 = 0"
  by (simp add: to_double_def)

lemma to_double_binade:
  assumes "2 powr of_int e \<le> x" and "x < 2 powr (of_int e + 1)"
  shows "to_double x = of_int (round_even (x * 2 powr (52 - of_int e))) * 2 powr (of_int e - 52)"
proof -
  have pos: "0 < x"
    using assms(1) powr_gt_zero [of 2 "of_int e"] by linarith
  have "of_int e \<le> log 2 x"
    using assms(1) pos by (simp add: le_log_iff)
  moreover have "log 2 x < of_int e + 1"
    using assms(2) pos by (simp add: log_less_iff)
  ultimately have "\<lfloor>log 2 x\<rfloor> = e"
    by linarith
  then show ?thesis
    using pos by (simp add: to_double_def Let_def)
qed

lemma round_even_int: "round_even (of_int n) = n"
  by (simp add: round_even_def)

lemma round_even_down:
  assumes "of_int n \<le> y" and "y < of_int n + 1 / 2"
  shows "round_even y = n"
proof -
  have "\<lfloor>y\<rfloor> = n" using assms by linarith
  then show ?thesis using assms by (simp add: round_even_def Let_def)
qed

lemma round_even_up:
  assumes "of_int n - 1 / 2 < y" and "y \<le> of_int n"
  shows "round_even y = n"
proof (cases "y = of_int n")
  case True
  then show ?thesis by (simp add: round_even_int)
next
  case False
  then have "\<lfloor>y\<rfloor> = n - 1" using assms by linarith
  then show ?thesis using assms False by (simp add: round_even_def Let_def)
qed

lemma sqrt_scale: "0 \<le> c \<Longrightarrow> sqrt x * c = sqrt (x * c\<^sup>2)"
  by (simp add: real_sqrt_mult)

lemma double_force_in: "to_double (10125 / 2) = 10125 / 2"
proof -
  have "to_double (10125 / 2)
        = of_int (round_even (10125 / 2 * 2 powr (52 - of_int 12))) * 2 powr (of_int 12 - 52)"
    by (rule to_double_binade) simp_all
  also have "10125 / 2 * 2 powr (52 - of_int 12) = (of_int (10125 * 2 ^ 39) :: real)"
    by simp
  finally show ?thesis
    by (simp only: round_even_int) (simp add: powr_neg_numeral)
qed

lemma double_square: "to_double (102515625 / 4) = 102515625 / 4"
proof -
  have "to_double (102515625 / 4)
        = of_int (round_even (102515625 / 4 * 2 powr (52 - of_int 24))) * 2 powr (of_int 24 - 52)"
    by (rule to_double_binade) simp_all
  also have "102515625 / 4 * 2 powr (52 - of_int 24) = (of_int (102515625 * 2 ^ 26) :: real)"
    by simp
  finally show ?thesis
    by (simp only: round_even_int) (simp add: powr_neg_numeral)
qed

lemma double_sqrt3: "to_double (sqrt 3) = 7800463371553962 / 2 ^ 52"
proof -
  have lo: "2 powr of_int 0 \<le> sqrt 3" by simp
  have hi: "sqrt 3 < 2 powr (of_int 0 + 1)"
    by (simp add: real_less_lsqrt)
  have sc: "sqrt 3 * 2 powr (52 - of_int 0) = sqrt (3 * 2 ^ 104)"
    using sqrt_scale [of "2 ^ 52" 3] by simp
  have a: "of_int 7800463371553962 \<le> sqrt (3 * 2 ^ 104)"
    by (rule real_le_rsqrt) simp
  have b: "sqrt (3 * 2 ^ 104) < of_int 7800463371553962 + 1 / 2"
    by (rule real_less_lsqrt) (simp_all add: power2_eq_square)
  have "round_even (sqrt 3 * 2 powr (52 - of_int 0)) = 7800463371553962"
    unfolding sc using a b by (rule round_even_down)
  then show ?thesis
    using to_double_binade [OF lo hi] by (simp add: powr_neg_numeral)
qed

lemma double_f_max: "to_double (7800463371553962 / 2 ^ 52 * 450) = 6855876010154849 / 2 ^ 43"
proof -
  let ?x = "7800463371553962 / 2 ^ 52 * 450 :: real"
  have lo: "2 powr of_int 9 \<le> ?x" by simp
  have hi: "?x < 2 powr (of_int 9 + 1)" by simp
  have "round_even (?x * 2 powr (52 - of_int 9)) = 6855876010154849"
    by (rule round_even_down) simp_all
  then show ?thesis
    using to_double_binade [OF lo hi] by (simp add: powr_neg_numeral)
qed

lemma double_scale:
  "to_double (6855876010154849 / 2 ^ 43 / (10125 / 2)) = 2773498087663631 / 2 ^ 54"
proof -
  let ?x = "6855876010154849 / 2 ^ 43 / (10125 / 2) :: real"
  have lo: "2 powr of_int (- 3) \<le> ?x" by (simp add: powr_neg_numeral)
  have hi: "?x < 2 powr (of_int (- 3) + 1)" by (simp add: powr_neg_numeral)
  have "round_even (?x * 2 powr (52 - of_int (- 3))) = 5546996175327262"
    by (rule round_even_up) simp_all
  then show ?thesis
    using to_double_binade [OF lo hi] by (simp add: powr_neg_numeral)
qed

lemma double_force_out:
  "to_double (2773498087663631 / 2 ^ 54 * (10125 / 2)) = 3427938005077425 / 2 ^ 42"
proof -
  let ?x = "2773498087663631 / 2 ^ 54 * (10125 / 2) :: real"
  have lo: "2 powr of_int 9 \<le> ?x" by simp
  have hi: "?x < 2 powr (of_int 9 + 1)" by simp
  have "round_even (?x * 2 powr (52 - of_int 9)) = 6855876010154850"
    by (rule round_even_up) simp_all
  then show ?thesis
    using to_double_binade [OF lo hi] by (simp add: powr_neg_numeral)
qed

lemma sqrt_force_in: "sqrt (102515625 / 4) = 10125 / 2"
  by (rule real_sqrt_unique) (simp_all add: power2_eq_square)

lemma fp_force_clamped:
  "fst (fst (thrust_from_acceleration_fp (PropulsionSystem_init 4000) (81 / 64, 0, 0)))
     = (3427938005077425 / 2 ^ 42, 0, 0)"
proof -
  have f: "fp_vscale 4000 (81 / 64, 0, 0) = (10125 / 2, 0, 0)"
    by (simp add: fp_mul_def double_force_in to_double_zero)
  have mag: "fp_vnorm (10125 / 2, 0, 0) = 10125 / 2"
    by (simp add: fp_mul_def fp_add_def fp_sqrt_def to_double_zero double_square
        sqrt_force_in double_force_in)
  have "fp_mul (fp_sqrt 3) 450 = 6855876010154849 / 2 ^ 43"
    by (simp only: fp_mul_def fp_sqrt_def double_sqrt3 double_f_max)
  then have f_max: "fp_mul (fp_sqrt 3) 450 = 6855876010154849 / 8796093022208"
    by simp
  have sc: "fp_div (6855876010154849 / 8796093022208) (10125 / 2)
              = 2773498087663631 / 18014398509481984"
    using double_scale by (simp add: fp_div_def)
  have scaled: "fp_vscale (2773498087663631 / 18014398509481984) (10125 / 2, 0, 0)
                  = (3427938005077425 / 4398046511104, 0, 0)"
    using double_force_out by (simp add: fp_mul_def to_double_zero)
  show ?thesis
    unfolding thrust_from_acceleration_fp_def Let_def
    by (simp add: PropulsionSystem_init_def MAIN_RCS_THRUST_N_def VERNIER_RCS_THRUST_N_def
        f mag f_max sc scaled del: fp_vscale.simps fp_vnorm.simps)
qed

text \<open>
  C4: the force returned by \<open>thrust_from_acceleration\<close> should have magnitude at most
  \<open>sqrt 3 * 450\<close> for every requested acceleration. In double precision it does not:
  for the acceleration \<open>[1.265625, 0, 0]\<close> on the stage of 4000 kg the desired force
  \<open>[5062.5, 0, 0]\<close> is above the cap, the scaling by \<open>f_max / mag\<close> rounds upwards, and
  the returned force is \<open>[779.4228634059948, 0, 0]\<close>, one unit in the last place above
  \<open>f_max\<close> and above \<open>sqrt 3 * 450\<close>.
\<close>

theorem thrust_clamp_exceeds:
  "fst (fst (thrust_from_acceleration_fp (PropulsionSystem_init 4000) (81 / 64, 0, 0)))
     = (3427938005077425 / 2 ^ 42, 0, 0) \<and>
   sqrt 3 * 450
     < vnorm (fst (fst (thrust_from_acceleration_fp (PropulsionSystem_init 4000)
                          (81 / 64, 0, 0))))"
proof -
  have "sqrt 3 * 450 = sqrt 607500"
    using sqrt_scale [of 450 3] by simp
  also have "\<dots> < 3427938005077425 / 2 ^ 42"
    by (rule real_less_lsqrt) (simp_all add: power2_eq_square)
  also have "3427938005077425 / 2 ^ 42 = \<bar>3427938005077425 / 2 ^ 42 :: real\<bar>"
    by simp
  also have "\<dots> = vnorm (3427938005077425 / 2 ^ 42, 0, 0)"
    by (rule vnorm_axis [symmetric])
  finally show ?thesis
    by (simp only: fp_force_clamped simp_thms)
qed

section \<open>Target selection\<close>

text \<open>
  The loop started on a first candidate returns a record of the list that is strictly
  nearer than everything before it and at least as near as everything after it, or the
  candidate itself when nothing in the list is strictly nearer.
\<close>

lemma nearest_loop_Finite:
  "\<exists>d. nearest_loop p ds (Some d0) (Finite r0) = Some d \<and>
     ((d = d0 \<and> (\<forall>y\<in>set ds. r0 \<le> vnorm (vsub (pos y) p))) \<or>
      (\<exists>pre post. ds = pre @ d # post \<and> vnorm (vsub (pos d) p) < r0 \<and>
         (\<forall>x\<in>set pre. vnorm (vsub (pos d) p) < vnorm (vsub (pos x) p)) \<and>
         (\<forall>y\<in>set post. vnorm (vsub (pos d) p) \<le> vnorm (vsub (pos y) p))))"
proof (induction ds arbitrary: d0 r0)
  case Nil
  then show ?case by simp
next
  case (Cons d1 ds)
  let ?n = "\<lambda>x. vnorm (vsub (pos x) p)"
  show ?case
  proof (cases "?n d1 < r0")
    case True
    from Cons.IH [of d1 "?n d1"] obtain d where
      res: "nearest_loop p ds (Some d1) (Finite (?n d1)) = Some d" and
      alt: "(d = d1 \<and> (\<forall>y\<in>set ds. ?n d1 \<le> ?n y)) \<or>
            (\<exists>pre post. ds = pre @ d # post \<and> ?n d < ?n d1 \<and>
               (\<forall>x\<in>set pre. ?n d < ?n x) \<and> (\<forall>y\<in>set post. ?n d \<le> ?n y))"
      by blast
    have eq: "nearest_loop p (d1 # ds) (Some d0) (Finite r0) = Some d"
      using True res by simp
    from alt have "\<exists>pre post. d1 # ds = pre @ d # post \<and> ?n d < r0 \<and>
               (\<forall>x\<in>set pre. ?n d < ?n x) \<and> (\<forall>y\<in>set post. ?n d \<le> ?n y)"
    proof
      assume a: "d = d1 \<and> (\<forall>y\<in>set ds. ?n d1 \<le> ?n y)"
      then have "d1 # ds = [] @ d # ds \<and> ?n d < r0 \<and>
               (\<forall>x\<in>set []. ?n d < ?n x) \<and> (\<forall>y\<in>set ds. ?n d \<le> ?n y)"
        using True by simp
      then show ?thesis by blast
    next
      assume "\<exists>pre post. ds = pre @ d # post \<and> ?n d < ?n d1 \<and>
               (\<forall>x\<in>set pre. ?n d < ?n x) \<and> (\<forall>y\<in>set post. ?n d \<le> ?n y)"
      then obtain pre post where s: "ds = pre @ d # post" "?n d < ?n d1"
        "\<forall>x\<in>set pre. ?n d < ?n x" "\<forall>y\<in>set post. ?n d \<le> ?n y"
        by blast
      then have "d1 # ds = (d1 # pre) @ d # post \<and> ?n d < r0 \<and>
               (\<forall>x\<in>set (d1 # pre). ?n d < ?n x) \<and> (\<forall>y\<in>set post. ?n d \<le> ?n y)"
        using True by simp
      then show ?thesis by blast
    qed
    with eq show ?thesis by blast
  next
    case False
    from Cons.IH [of d0 r0] obtain d where
      res: "nearest_loop p ds (Some d0) (Finite r0) = Some d" and
      alt: "(d = d0 \<and> (\<forall>y\<in>set ds. r0 \<le> ?n y)) \<or>
            (\<exists>pre post. ds = pre @ d # post \<and> ?n d < r0 \<and>
               (\<forall>x\<in>set pre. ?n d < ?n x) \<and> (\<forall>y\<in>set post. ?n d \<le> ?n y))"
      by blast
    have eq: "nearest_loop p (d1 # ds) (Some d0) (Finite r0) = Some d"
      using False res by simp
    from alt have "(d = d0 \<and> (\<forall>y\<in>set (d1 # ds). r0 \<le> ?n y)) \<or>
            (\<exists>pre post. d1 # ds = pre @ d # post \<and> ?n d < r0 \<and>
               (\<forall>x\<in>set pre. ?n d < ?n x) \<and> (\<forall>y\<in>set post. ?n d \<le> ?n y))"
    proof
      assume "d = d0 \<and> (\<forall>y\<in>set ds. r0 \<le> ?n y)"
      then show ?thesis using False by simp
    next
      assume "\<exists>pre post. ds = pre @ d # post \<and> ?n d < r0 \<and>
               (\<forall>x\<in>set pre. ?n d < ?n x) \<and> (\<forall>y\<in>set post. ?n d \<le> ?n y)"
      then obtain pre post where s: "ds = pre @ d # post" "?n d < r0"
        "\<forall>x\<in>set pre. ?n d < ?n x" "\<forall>y\<in>set post. ?n d \<le> ?n y"
        by blast
      then have "d1 # ds = (d1 # pre) @ d # post \<and> ?n d < r0 \<and>
               (\<forall>x\<in>set (d1 # pre). ?n d < ?n x) \<and> (\<forall>y\<in>set post. ?n d \<le> ?n y)"
        using False by simp
      then show ?thesis by blast
    qed
    with eq show ?thesis by blast
  qed
qed

lemma identify_nearest_debris_min:
  assumes "catalog \<noteq> []"
  shows "\<exists>d pre post. identify_nearest_debris st catalog = Some d \<and> catalog = pre @ d # post \<and>
     (\<forall>x\<in>set pre. vnorm (vsub (pos d) (state_pos st)) < vnorm (vsub (pos x) (state_pos st))) \<and>
     (\<forall>y\<in>set post. vnorm (vsub (pos d) (state_pos st)) \<le> vnorm (vsub (pos y) (state_pos st)))"
proof -
  let ?p = "state_pos st"
  let ?n = "\<lambda>x. vnorm (vsub (pos x) ?p)"
  from assms obtain d1 ds where c: "catalog = d1 # ds" by (cases catalog) auto
  have start: "identify_nearest_debris st catalog = nearest_loop ?p ds (Some d1) (Finite (?n d1))"
    using c by (simp add: identify_nearest_debris_def)
  from nearest_loop_Finite [of ?p ds d1 "?n d1"] obtain d where
    res: "nearest_loop ?p ds (Some d1) (Finite (?n d1)) = Some d" and
    alt: "(d = d1 \<and> (\<forall>y\<in>set ds. ?n d1 \<le> ?n y)) \<or>
          (\<exists>pre post. ds = pre @ d # post \<and> ?n d < ?n d1 \<and>
             (\<forall>x\<in>set pre. ?n d < ?n x) \<and> (\<forall>y\<in>set post. ?n d \<le> ?n y))"
    by blast
  from alt have "\<exists>pre post. catalog = pre @ d # post \<and>
             (\<forall>x\<in>set pre. ?n d < ?n x) \<and> (\<forall>y\<in>set post. ?n d \<le> ?n y)"
  proof
    assume "d = d1 \<and> (\<forall>y\<in>set ds. ?n d1 \<le> ?n y)"
    then have "catalog = [] @ d # ds \<and> (\<forall>x\<in>set []. ?n d < ?n x) \<and> (\<forall>y\<in>set ds. ?n d \<le> ?n y)"
      using c by simp
    then show ?thesis by blast
  next
    assume "\<exists>pre post. ds = pre @ d # post \<and> ?n d < ?n d1 \<and>
             (\<forall>x\<in>set pre. ?n d < ?n x) \<and> (\<forall>y\<in>set post. ?n d \<le> ?n y)"
    then obtain pre post where s: "ds = pre @ d # post" "?n d < ?n d1"
        "\<forall>x\<in>set pre. ?n d < ?n x" "\<forall>y\<in>set post. ?n d \<le> ?n y"
      by blast
    then have "catalog = (d1 # pre) @ d # post \<and>
               (\<forall>x\<in>set (d1 # pre). ?n d < ?n x) \<and> (\<forall>y\<in>set post. ?n d \<le> ?n y)"
      using c by simp
    then show ?thesis by blast
  qed
  with start res show ?thesis by auto
qed

lemma main_catalog_nearest: "identify_nearest_debris origin_state main_catalog = Some debris_2"
  by (simp add: identify_nearest_debris_def main_catalog_def debris_1_def debris_2_def
      debris_3_def origin_state_def zeros3_def state_pos_def)


section \<open>The tick of the orchestrator\<close>

lemma decide_phase_None: "decide_phase b st None = SEEKING_DEBRIS"
  by (simp add: decide_phase_def)

lemma select_target_fields:
  "power_sys (select_target b st) = power_sys b"
  "grabbing (select_target b st) = grabbing b"
  "propulsion (select_target b st) = propulsion b"
  by (simp_all add: select_target_def Let_def)

lemma vec3_components: "\<exists>a1 a2 a3. (v :: vec3) = (a1, a2, a3)"
  by (cases v) simp

lemma dispatch_returns:
  assumes "phase b = RETRACTING \<longrightarrow> target_debris b \<noteq> None"
  shows "\<exists>u m b'. dispatch cs b st dt tg = Inr (u, m, b') \<and> phase b' = phase b \<and>
           power_sys b' = power_sys b \<and> propulsion b' = propulsion b \<and>
           target_debris b' = target_debris b"
  using assms
  by (cases "target_debris b")
    (simp_all add: dispatch_def Let_def case_prod_beta vec3_components)

lemma dispatch_mode:
  assumes "dispatch cs b st dt tg = Inr (u, m, b')"
    and "tg = None \<longrightarrow> phase b = SEEKING_DEBRIS"
  shows "m = mode_of_phase (phase b)"
  using assms
  by (cases "phase b"; cases "target_debris b")
    (auto simp: dispatch_def Let_def case_prod_beta split: if_splits)

lemma dispatch_reentry:
  assumes "phase b = REENTRY"
  shows "dispatch cs b st dt tg =
           Inr (vdiv (vscale (- 0.5) (state_pos st)) (vnorm (state_pos st) + 1 / 10 ^ 6),
                Some ''reentry'', b)"
  using assms by (simp add: dispatch_def)

lemma request_power_returns:
  assumes "0 \<le> soc p * capacity_kwh p"
  shows "\<exists>w p'. request_power p kw dt = Inr (w, p')"
  using assms by (auto simp: request_power_def Let_def mult.commute)

lemma compute_control_low_power:
  assumes "\<not> can_support (power_sys b) 5"
  shows "compute_control cs b st dt =
           Inr (zeros3,
                \<lparr>t_phase = phase b, t_control_mode = None, t_error = Some ''low_power''\<rparr>,
                b\<lparr>state := st\<rparr>)"
  using assms by (simp add: compute_control_def Let_def)

text \<open>
  A tick that passes the power check: the dispatch runs on the brain after the target
  selection and the phase update, and the tick returns its acceleration.
\<close>

lemma compute_control_powered:
  fixes b :: "'c AIBrain" and st :: state
  assumes "can_support (power_sys b) 5" and "0 \<le> capacity_kwh (power_sys b)"
  defines "b1 \<equiv> select_target (b\<lparr>state := st\<rparr>) st"
  defines "b2 \<equiv> b1\<lparr>phase := decide_phase b1 st (target_of b1)\<rparr>"
  shows "\<exists>u m b3 pw. dispatch cs b2 st dt (target_of b1) = Inr (u, m, b3) \<and>
           phase b3 = phase b2 \<and> target_debris b3 = target_debris b1 \<and>
           m = mode_of_phase (phase b2) \<and>
           compute_control cs b st dt =
             Inr (u, \<lparr>t_phase = phase b, t_control_mode = m, t_error = None\<rparr>,
                  b3\<lparr>power_sys := pw,
                     propulsion := snd (thrust_from_acceleration (propulsion b3) u)\<rparr>)"
proof -
  have ret: "phase b2 = RETRACTING \<longrightarrow> target_debris b2 \<noteq> None"
    by (cases "target_debris b1") (simp_all add: b2_def target_of_def decide_phase_None)
  from dispatch_returns [OF ret, of cs st dt "target_of b1"] obtain u m b3 where
    d: "dispatch cs b2 st dt (target_of b1) = Inr (u, m, b3)" and
    ph: "phase b3 = phase b2" and
    pw: "power_sys b3 = power_sys b2" and
    tg: "target_debris b3 = target_debris b2"
    by blast
  have seek: "target_of b1 = None \<longrightarrow> phase b2 = SEEKING_DEBRIS"
    by (simp add: b2_def decide_phase_None)
  have mode: "m = mode_of_phase (phase b2)"
    using dispatch_mode [OF d seek] .
  have "power_sys b3 = power_sys b"
    using pw by (simp add: b2_def b1_def select_target_fields)
  then have "0 \<le> soc (power_sys b3) * capacity_kwh (power_sys b3)"
    using assms(1,2) by (simp add: can_support_def)
  from request_power_returns [OF this, of "vnorm u * 0.5" dt] obtain w p' where
    r: "request_power (power_sys b3) (vnorm u * 0.5) dt = Inr (w, p')"
    by blast
  have "compute_control cs b st dt =
             Inr (u, \<lparr>t_phase = phase b, t_control_mode = m, t_error = None\<rparr>,
                  b3\<lparr>power_sys := p',
                     propulsion := snd (thrust_from_acceleration (propulsion b3) u)\<rparr>)"
    using assms(1) d r
    by (simp add: compute_control_def Let_def b1_def b2_def)
  moreover have "target_debris b3 = target_debris b1"
    using tg by (simp add: b2_def)
  ultimately show ?thesis using d ph mode by blast
qed

lemma compute_control_phase:
  assumes "can_support (power_sys b) 5" and "0 \<le> capacity_kwh (power_sys b)"
    and "compute_control cs b st dt = Inr (u, t, b')"
  shows "phase b' = decide_phase (select_target (b\<lparr>state := st\<rparr>) st) st
                      (target_of (select_target (b\<lparr>state := st\<rparr>) st))"
  using compute_control_powered [OF assms(1,2), of cs st dt] assms(3) by auto

lemma vnorm_vdiv: "vnorm (vdiv v c) = vnorm v / \<bar>c\<bar>"
proof -
  have "vdiv v c = vscale (1 / c) v" by (cases v) simp
  then show ?thesis by (simp add: vnorm_vscale)
qed

lemma select_target_nearest:
  assumes "target_debris b = None" and "debris_catalog b \<noteq> []"
  shows "target_debris (select_target b st) = identify_nearest_debris st (debris_catalog b)"
  using assms by (simp add: select_target_def Let_def)

lemma select_target_keeps:
  assumes "target_debris b \<noteq> None"
  shows "select_target b st = b"
  using assms by (auto simp: select_target_def)

text \<open>Facts about the concrete missions.\<close>

lemma brain_in_powered:
  "can_support (power_sys (brain_in ph)) 5"
  "capacity_kwh (power_sys (brain_in ph)) = BATTERY_CAPACITY_KWH"
  "target_debris (brain_in ph) = Some debris_2"
  "phase (brain_in ph) = ph"
  by (simp_all add: brain_in_def brain_start_def AIBrain_init_def PowerSystem_init_def
      can_support_def MAX_DISCHARGE_RATE_KW_def)

lemma brain_in_select:
  "select_target ((brain_in ph)\<lparr>state := st\<rparr>) st = (brain_in ph)\<lparr>state := st\<rparr>"
  by (rule select_target_keeps) (simp add: brain_in_powered)

lemma brain_in_target:
  "target_of ((brain_in ph)\<lparr>state := st\<rparr>) = Some (300, 50, 20)"
  by (simp add: target_of_def brain_in_powered debris_2_def)

lemma sqrt_92900: "sqrt 92900 < 500" "\<not> sqrt 92900 < 1 / 100"
proof -
  show "sqrt 92900 < 500" by (rule real_less_lsqrt) simp_all
  have "1 \<le> sqrt 92900" by (rule real_le_rsqrt) simp
  then show "\<not> sqrt 92900 < 1 / 100" by linarith
qed

lemma brain_retracted_powered:
  "can_support (power_sys (brain_retracted ph)) 5"
  "capacity_kwh (power_sys (brain_retracted ph)) = BATTERY_CAPACITY_KWH"
  "phase (brain_retracted ph) = ph"
  by (simp_all add: brain_retracted_def brain_in_powered)

lemma brain_retracted_reentry:
  assumes "compute_control null_controllers (brain_retracted REENTRY) unit_state 0.1
             = Inr (u, t, b')"
  shows "phase b' = REENTRY"
proof -
  let ?b = "brain_retracted REENTRY"
  have cap: "0 \<le> capacity_kwh (power_sys ?b)"
    by (simp add: brain_retracted_powered BATTERY_CAPACITY_KWH_def)
  have tg: "target_debris (?b\<lparr>state := unit_state\<rparr>) \<noteq> None"
    by (simp add: brain_retracted_def brain_in_powered)
  have sel: "select_target (?b\<lparr>state := unit_state\<rparr>) unit_state = ?b\<lparr>state := unit_state\<rparr>"
    using tg by (rule select_target_keeps)
  have "decide_phase (?b\<lparr>state := unit_state\<rparr>) unit_state
          (target_of (?b\<lparr>state := unit_state\<rparr>)) = REENTRY"
    by (simp add: target_of_def decide_phase_def brain_retracted_def brain_in_powered
        grabbing_retracted_def)
  then show ?thesis
    using compute_control_phase [OF brain_retracted_powered(1) cap assms]
    unfolding sel by simp
qed


text \<open>
  C1: on every tick whose power check fails, \<open>compute_control\<close> returns the zero
  acceleration and the telemetry with the phase, no control mode and the error
  \<open>low_power\<close>; the brain it leaves is the one it was called on with only \<open>state\<close>
  stored, so the state of charge, the fuel, the grabbing system, the target, the phase
  and the memories of the four controllers are untouched. With the discharge limit of
  the constructor, the check \<open>can_support(5.0)\<close> fails exactly when \<open>soc \<le> 0.01\<close>.
\<close>

theorem low_power_tick:
  "(\<not> can_support (power_sys b) 5 \<longrightarrow>
      compute_control cs b st dt =
        Inr (zeros3,
             \<lparr>t_phase = phase b, t_control_mode = None, t_error = Some ''low_power''\<rparr>,
             b\<lparr>state := st\<rparr>)) \<and>
   (max_discharge_kw (power_sys b) = MAX_DISCHARGE_RATE_KW \<longrightarrow>
      (\<not> can_support (power_sys b) 5) = (soc (power_sys b) \<le> 0.01))"
  by (auto simp: compute_control_def Let_def can_support_def MAX_DISCHARGE_RATE_KW_def)

theorem low_power_tick_witness:
  "\<not> can_support (power_sys brain_low) 5 \<and>
   max_discharge_kw (power_sys brain_low) = MAX_DISCHARGE_RATE_KW \<and>
   soc (power_sys brain_low) \<le> 0.01 \<and>
   compute_control null_controllers brain_low unit_state 0.1 =
     Inr (zeros3,
          \<lparr>t_phase = COARSE_APPROACH, t_control_mode = None, t_error = Some ''low_power''\<rparr>,
          brain_low\<lparr>state := unit_state\<rparr>)"
proof -
  have a: "\<not> can_support (power_sys brain_low) 5"
    by (simp add: brain_low_def can_support_def)
  have b: "max_discharge_kw (power_sys brain_low) = MAX_DISCHARGE_RATE_KW"
    by (simp add: brain_low_def PowerSystem_init_def)
  have c: "phase brain_low = COARSE_APPROACH"
    by (simp add: brain_low_def brain_in_powered)
  show ?thesis
    using low_power_tick [where b = brain_low and cs = null_controllers
      and st = unit_state and dt = "0.1"] a b c by simp
qed

text \<open>
  C2: when a target is given and none of the three distance rules applies,
  \<open>decide_phase\<close> returns \<open>REENTRY\<close> as soon as the retraction timer has reached five
  seconds and the capture is confirmed, whatever the current phase, the capture phase
  included.
\<close>

theorem reentry_override:
  assumes "\<not> (phase b = COARSE_APPROACH \<and> vnorm (vsub (state_pos st) tg) < 500)"
    and "\<not> (phase b = FINE_APPROACH \<and> vnorm (vsub (state_pos st) tg) < 5)"
    and "\<not> (phase b = CAPTURE \<and> vnorm (vsub (state_pos st) tg) < 0.01)"
    and "retract_timer (grabbing b) \<ge> 5.0"
    and "capture_confirmed (grabbing b)"
  shows "decide_phase b st (Some tg) = REENTRY"
  using assms
  by (simp add: decide_phase_def Let_def LQR_COARSE_THRESHOLD_def MPC_FINE_THRESHOLD_def
      SLIDING_CAPTURE_THRESHOLD_def)

theorem reentry_override_witness:
  "phase (brain_retracted CAPTURE) = CAPTURE \<and>
   \<not> vnorm (vsub (state_pos origin_state) (300, 50, 20)) < 0.01 \<and>
   retract_timer (grabbing (brain_retracted CAPTURE)) \<ge> 5.0 \<and>
   capture_confirmed (grabbing (brain_retracted CAPTURE)) \<and>
   decide_phase (brain_retracted CAPTURE) origin_state (Some (300, 50, 20)) = REENTRY"
proof -
  have ph: "phase (brain_retracted CAPTURE) = CAPTURE"
    by (simp add: brain_retracted_def brain_in_powered)
  have far: "\<not> vnorm (vsub (state_pos origin_state) (300, 50, 20)) < 0.01"
    using sqrt_92900 by (simp add: state_pos_def origin_state_def zeros3_def)
  have tm: "retract_timer (grabbing (brain_retracted CAPTURE)) \<ge> 5.0"
    by (simp add: brain_retracted_def grabbing_retracted_def)
  have cc: "capture_confirmed (grabbing (brain_retracted CAPTURE))"
    by (simp add: brain_retracted_def grabbing_retracted_def)
  have "decide_phase (brain_retracted CAPTURE) origin_state (Some (300, 50, 20)) = REENTRY"
    using ph far by (intro reentry_override tm cc) simp_all
  with ph far tm cc show ?thesis by blast
qed

text \<open>
  C8: on a powered tick with no target and a catalog that is not empty, the orchestrator
  takes as target the record that \<open>identify_nearest_debris\<close> returns: a record of the
  catalog whose distance to the position is strictly below that of every earlier record
  and at most that of every later one, that is, the first record at the minimum
  distance. For the catalog of main.py and the origin this is the second record.
\<close>

theorem nearest_selected:
  assumes "target_debris b = None" and "debris_catalog b \<noteq> []"
    and "can_support (power_sys b) 5"
    and "capacity_kwh (power_sys b) = BATTERY_CAPACITY_KWH"
  shows "\<exists>d pre post u t b'.
           debris_catalog b = pre @ d # post \<and>
           (\<forall>x\<in>set pre. vnorm (vsub (pos d) (state_pos st)) < vnorm (vsub (pos x) (state_pos st))) \<and>
           (\<forall>y\<in>set post. vnorm (vsub (pos d) (state_pos st)) \<le> vnorm (vsub (pos y) (state_pos st))) \<and>
           identify_nearest_debris st (debris_catalog b) = Some d \<and>
           compute_control cs b st dt = Inr (u, t, b') \<and>
           target_debris b' = Some d"
proof -
  from identify_nearest_debris_min [OF assms(2), of st] obtain d pre post where
    sel: "identify_nearest_debris st (debris_catalog b) = Some d" and
    split: "debris_catalog b = pre @ d # post" and
    before: "\<forall>x\<in>set pre. vnorm (vsub (pos d) (state_pos st)) < vnorm (vsub (pos x) (state_pos st))" and
    after: "\<forall>y\<in>set post. vnorm (vsub (pos d) (state_pos st)) \<le> vnorm (vsub (pos y) (state_pos st))"
    by blast
  have cap: "0 \<le> capacity_kwh (power_sys b)"
    using assms(4) by (simp add: BATTERY_CAPACITY_KWH_def)
  from compute_control_powered [OF assms(3) cap, of cs st dt] obtain u t b' where
    run: "compute_control cs b st dt = Inr (u, t, b')" and
    tg: "target_debris b' = target_debris (select_target (b\<lparr>state := st\<rparr>) st)"
    by force
  have "target_debris (select_target (b\<lparr>state := st\<rparr>) st) = Some d"
    using select_target_nearest [of "b\<lparr>state := st\<rparr>" st] assms(1,2) sel by simp
  with tg have "target_debris b' = Some d" by simp
  with sel split before after run show ?thesis by blast
qed

theorem nearest_selected_witness:
  "target_debris brain_seeking = None \<and> debris_catalog brain_seeking \<noteq> [] \<and>
   can_support (power_sys brain_seeking) 5 \<and>
   capacity_kwh (power_sys brain_seeking) = BATTERY_CAPACITY_KWH \<and>
   identify_nearest_debris origin_state main_catalog = Some debris_2 \<and>
   (\<exists>u t b'. compute_control null_controllers brain_seeking origin_state 0.1 = Inr (u, t, b') \<and>
      target_debris b' = Some debris_2)"
proof -
  have a: "target_debris brain_seeking = None"
    by (simp add: brain_seeking_def brain_start_def AIBrain_init_def)
  have cat: "debris_catalog brain_seeking = main_catalog"
    by (simp add: brain_seeking_def)
  have b: "debris_catalog brain_seeking \<noteq> []"
    by (simp add: cat main_catalog_def)
  have c: "can_support (power_sys brain_seeking) 5"
    by (simp add: brain_seeking_def brain_start_def AIBrain_init_def PowerSystem_init_def
        can_support_def MAX_DISCHARGE_RATE_KW_def)
  have d: "capacity_kwh (power_sys brain_seeking) = BATTERY_CAPACITY_KWH"
    by (simp add: brain_seeking_def brain_start_def AIBrain_init_def PowerSystem_init_def)
  from nearest_selected [OF a b c d, where st = origin_state and cs = null_controllers
      and dt = "0.1"]
  have "\<exists>u t b'. compute_control null_controllers brain_seeking origin_state 0.1 = Inr (u, t, b') \<and>
          target_debris b' = Some debris_2"
    unfolding cat main_catalog_nearest by auto
  with a b c d main_catalog_nearest show ?thesis by blast
qed

text \<open>
  C9, as amended: on a powered tick whose phase after the phase update is \<open>REENTRY\<close>,
  the acceleration is \<open>-0.5 * pos / (norm pos + 1e-6)\<close>: it points from the position
  towards the origin, its magnitude is \<open>0.5 * norm pos / (norm pos + 1e-6)\<close>, strictly
  below 0.5, and the control mode is \<open>reentry\<close>.
\<close>

theorem reentry_burn:
  assumes "can_support (power_sys b) 5"
    and "capacity_kwh (power_sys b) = BATTERY_CAPACITY_KWH"
  shows "\<exists>u t b'. compute_control cs b st dt = Inr (u, t, b') \<and>
           (phase b' = REENTRY \<longrightarrow>
              u = vdiv (vscale (- 0.5) (state_pos st)) (vnorm (state_pos st) + 1 / 10 ^ 6) \<and>
              vnorm u = 0.5 * vnorm (state_pos st) / (vnorm (state_pos st) + 1 / 10 ^ 6) \<and>
              vnorm u < 0.5 \<and>
              t_control_mode t = Some ''reentry'')"
proof -
  let ?b1 = "select_target (b\<lparr>state := st\<rparr>) st"
  let ?b2 = "?b1\<lparr>phase := decide_phase ?b1 st (target_of ?b1)\<rparr>"
  let ?n = "vnorm (state_pos st)"
  let ?u = "vdiv (vscale (- 0.5) (state_pos st)) (?n + 1 / 10 ^ 6)"
  have cap: "0 \<le> capacity_kwh (power_sys b)"
    using assms(2) by (simp add: BATTERY_CAPACITY_KWH_def)
  from compute_control_powered [OF assms(1) cap, of cs st dt] obtain u m b3 pw where
    d: "dispatch cs ?b2 st dt (target_of ?b1) = Inr (u, m, b3)" and
    ph: "phase b3 = phase ?b2" and
    mode: "m = mode_of_phase (phase ?b2)" and
    run: "compute_control cs b st dt =
             Inr (u, \<lparr>t_phase = phase b, t_control_mode = m, t_error = None\<rparr>,
                  b3\<lparr>power_sys := pw,
                     propulsion := snd (thrust_from_acceleration (propulsion b3) u)\<rparr>)"
    by blast
  have n0: "0 \<le> ?n" by (rule vnorm_nonneg)
  have norm_u: "vnorm ?u = 0.5 * ?n / (?n + 1 / 10 ^ 6)"
    using n0 by (simp add: vnorm_vdiv vnorm_vscale)
  have "0.5 * ?n / (?n + 1 / 10 ^ 6) < 0.5"
    using n0 by (simp add: divide_less_eq)
  then have small: "vnorm ?u < 0.5"
    using norm_u by presburger
  have "phase b3 = REENTRY \<longrightarrow> u = ?u \<and> m = Some ''reentry''"
  proof
    assume "phase b3 = REENTRY"
    then have r: "phase ?b2 = REENTRY" using ph by simp
    from dispatch_reentry [OF r, of cs st dt "target_of ?b1"] d mode r
    show "u = ?u \<and> m = Some ''reentry''" by simp
  qed
  with run norm_u small show ?thesis by auto
qed

theorem reentry_burn_witness:
  "can_support (power_sys (brain_retracted REENTRY)) 5 \<and>
   capacity_kwh (power_sys (brain_retracted REENTRY)) = BATTERY_CAPACITY_KWH \<and>
   (\<exists>u t b'. compute_control null_controllers (brain_retracted REENTRY) unit_state 0.1
               = Inr (u, t, b') \<and>
      phase b' = REENTRY \<and> u = (- (500000 / 1000001), 0, 0) \<and>
      t_control_mode t = Some ''reentry'')"
proof -
  let ?b = "brain_retracted REENTRY"
  from reentry_burn [OF brain_retracted_powered(1,2), where cs = null_controllers
      and st = unit_state and dt = "0.1"]
  obtain u t b' where
    run: "compute_control null_controllers ?b unit_state 0.1 = Inr (u, t, b')" and
    burn: "phase b' = REENTRY \<longrightarrow>
       u = vdiv (vscale (- 0.5) (state_pos unit_state)) (vnorm (state_pos unit_state) + 1 / 10 ^ 6) \<and>
       t_control_mode t = Some ''reentry''"
    by blast
  have ph: "phase b' = REENTRY"
    using run by (rule brain_retracted_reentry)
  have "vdiv (vscale (- 0.5) (state_pos unit_state)) (vnorm (state_pos unit_state) + 1 / 10 ^ 6)
        = (- (500000 / 1000001), 0, 0)"
    by (simp add: state_pos_def unit_state_def)
  with run burn ph brain_retracted_powered show ?thesis by auto
qed

text \<open>
  The claim as stated fails one metre from the origin: the acceleration is not
  \<open>-0.5 * pos / norm pos\<close> and its magnitude is not 0.5.
\<close>

theorem reentry_burn_counterexample:
  "phase (brain_retracted REENTRY) = REENTRY \<and>
   state_pos unit_state \<noteq> zeros3 \<and>
   phase (snd (snd (projr (compute_control null_controllers (brain_retracted REENTRY)
                             unit_state 0.1)))) = REENTRY \<and>
   fst (projr (compute_control null_controllers (brain_retracted REENTRY) unit_state 0.1))
     \<noteq> vscale (- 0.5 / vnorm (state_pos unit_state)) (state_pos unit_state) \<and>
   vnorm (fst (projr (compute_control null_controllers (brain_retracted REENTRY)
                        unit_state 0.1))) \<noteq> 0.5"
proof -
  let ?b = "brain_retracted REENTRY"
  let ?b1 = "select_target (?b\<lparr>state := unit_state\<rparr>) unit_state"
  let ?b2 = "?b1\<lparr>phase := decide_phase ?b1 unit_state (target_of ?b1)\<rparr>"
  have cap: "0 \<le> capacity_kwh (power_sys ?b)"
    by (simp add: brain_retracted_powered BATTERY_CAPACITY_KWH_def)
  from compute_control_powered [OF brain_retracted_powered(1) cap, where cs = null_controllers
      and st = unit_state and dt = "0.1"]
  obtain u t b' where
    d: "\<exists>m b3. dispatch null_controllers ?b2 unit_state 0.1 (target_of ?b1) = Inr (u, m, b3)
           \<and> phase b3 = phase ?b2" and
    run: "compute_control null_controllers ?b unit_state 0.1 = Inr (u, t, b')"
    by blast
  have ph: "phase b' = REENTRY"
    using run by (rule brain_retracted_reentry)
  then have p2: "phase ?b2 = REENTRY"
    using compute_control_phase [OF brain_retracted_powered(1) cap run] by simp
  have u: "u = (- (500000 / 1000001), 0, 0)"
    using d dispatch_reentry [OF p2, where cs = null_controllers and st = unit_state
      and dt = "0.1" and tg = "target_of ?b1"]
    by (auto simp: state_pos_def unit_state_def)
  have n: "vnorm u = 500000 / 1000001"
    unfolding u using vnorm_axis [of "- (500000 / 1000001)"] by simp
  show ?thesis
    using run ph n unfolding u
    by (simp add: brain_retracted_powered state_pos_def unit_state_def zeros3_def)
qed

text \<open>
  C10: the \<open>phase\<close> field of the telemetry is the phase the brain had when the tick
  began, while on a powered tick the control mode is the one of the phase the brain has
  when the tick ends: the telemetry is built before the target selection and the phase
  update, and the dispatch reads the updated phase.
\<close>

theorem telemetry_phase:
  assumes "capacity_kwh (power_sys b) = BATTERY_CAPACITY_KWH"
  shows "\<exists>u t b'. compute_control cs b st dt = Inr (u, t, b') \<and> t_phase t = phase b \<and>
           (can_support (power_sys b) 5 \<longrightarrow> t_control_mode t = mode_of_phase (phase b'))"
proof (cases "can_support (power_sys b) 5")
  case False
  then show ?thesis by (simp add: compute_control_low_power vec3_components)
next
  case True
  have cap: "0 \<le> capacity_kwh (power_sys b)"
    using assms by (simp add: BATTERY_CAPACITY_KWH_def)
  from compute_control_powered [OF True cap, of cs st dt] show ?thesis
    using True by force
qed

theorem telemetry_phase_witness:
  "capacity_kwh (power_sys (brain_in COARSE_APPROACH)) = BATTERY_CAPACITY_KWH \<and>
   can_support (power_sys (brain_in COARSE_APPROACH)) 5 \<and>
   (\<exists>u t b'. compute_control null_controllers (brain_in COARSE_APPROACH) origin_state 0.1
               = Inr (u, t, b') \<and>
      t_phase t = COARSE_APPROACH \<and> phase b' = FINE_APPROACH \<and>
      t_control_mode t = Some ''MPC'')"
proof -
  let ?b = "brain_in COARSE_APPROACH"
  have cap: "0 \<le> capacity_kwh (power_sys ?b)"
    by (simp add: brain_in_powered BATTERY_CAPACITY_KWH_def)
  from telemetry_phase [OF brain_in_powered(2), where cs = null_controllers
      and st = origin_state and dt = "0.1"]
  obtain u t b' where
    run: "compute_control null_controllers ?b origin_state 0.1 = Inr (u, t, b')" and
    tp: "t_phase t = phase ?b" and
    md: "t_control_mode t = mode_of_phase (phase b')"
    using brain_in_powered(1) by blast
  have "phase b' = FINE_APPROACH"
    using compute_control_phase [OF brain_in_powered(1) cap run] sqrt_92900
    by (simp add: brain_in_select brain_in_target decide_phase_def brain_in_powered
        state_pos_def origin_state_def zeros3_def LQR_COARSE_THRESHOLD_def)
  with run tp md have "compute_control null_controllers ?b origin_state 0.1 = Inr (u, t, b') \<and>
      t_phase t = COARSE_APPROACH \<and> phase b' = FINE_APPROACH \<and>
      t_control_mode t = Some ''MPC''"
    by (simp add: brain_in_powered)
  then show ?thesis
    using brain_in_powered(1,2) [of COARSE_APPROACH] by blast
qed


end
